theory Spec2Isabelle
  imports Complex_Main "HOL-Library.Multiset"
begin

section \<open>Errors\<close>

text \<open>
  The Python exceptions that the modelled functions of \<^verbatim>\<open>golf_leaderboard.py\<close> can
  raise. A function that may raise returns \<open>py_error + 'a\<close>, with \<open>Inl\<close> for the
  exception.
\<close>

datatype py_error =
    ZeroDivisionError
  | OverflowError
  | AttributeError
  | TypeError
  | KeyError
  | IndexError
  | RequestException

section \<open>Player records\<close>

text \<open>
  A player record is the dictionary \<^verbatim>\<open>{'name': ..., 'scores': [...]}\<close>. The collector
  stores the name and the scores as the JSON values it received; the calculator passes
  the name through untouched, so its type is a parameter.
\<close>

record ('n, 's) player_record =
  name :: 'n
  scores :: "'s list"

section \<open>JSON values\<close>

text \<open>
  What \<^verbatim>\<open>response.json()\<close> returns: \<^verbatim>\<open>None\<close>, a bool, an int, a float (its
  value; the non-standard literals NaN and Infinity are left out), a str, a list, or a
  dict with string keys, as an association list looked up with \<open>map_of\<close>.
\<close>

datatype json =
    JNull
  | JBool bool
  | JInt int
  | JFloat rat
  | JStr string
  | JList "json list"
  | JDict "(string \<times> json) list"

text \<open>Python's truth value of a JSON value, as \<^verbatim>\<open>if x:\<close> tests it.\<close>

fun truthy :: "json \<Rightarrow> bool" where
  "truthy JNull = False"
| "truthy (JBool b) = b"
| "truthy (JInt i) = (i \<noteq> 0)"
| "truthy (JFloat q) = (q \<noteq> 0)"
| "truthy (JStr s) = (s \<noteq> [])"
| "truthy (JList xs) = (xs \<noteq> [])"
| "truthy (JDict d) = (d \<noteq> [])"

fun is_dict :: "json \<Rightarrow> bool" where
  "is_dict (JDict d) = True"
| "is_dict _ = False"

fun is_list :: "json \<Rightarrow> bool" where
  "is_list (JList xs) = True"
| "is_list _ = False"

text \<open>Sequencing: an exception skips the rest.\<close>

fun py_bind :: "py_error + 'a \<Rightarrow> ('a \<Rightarrow> py_error + 'b) \<Rightarrow> py_error + 'b" where
  "py_bind (Inl e) f = Inl e"
| "py_bind (Inr v) f = f v"

text \<open>
  \<^verbatim>\<open>x.get(key, default)\<close>: only a dict has the method; on any other value the
  attribute lookup raises \<^verbatim>\<open>AttributeError\<close>.
\<close>

fun py_get :: "json \<Rightarrow> string \<Rightarrow> json \<Rightarrow> py_error + json" where
  "py_get (JDict d) key dflt = Inr (case map_of d key of Some v \<Rightarrow> v | None \<Rightarrow> dflt)"
| "py_get _ key dflt = Inl AttributeError"

text \<open>
  \<^verbatim>\<open>for item in x\<close>: the elements of a list, the keys of a dict, the characters of a
  str; any other value is not iterable. \<open>py_len\<close> is \<^verbatim>\<open>len(x)\<close>.
\<close>

fun py_iter :: "json \<Rightarrow> py_error + json list" where
  "py_iter (JList xs) = Inr xs"
| "py_iter (JDict d) = Inr (map (\<lambda>kv. JStr (fst kv)) d)"
| "py_iter (JStr s) = Inr (map (\<lambda>c. JStr [c]) s)"
| "py_iter _ = Inl TypeError"

fun py_len :: "json \<Rightarrow> py_error + nat" where
  "py_len (JList xs) = Inr (length xs)"
| "py_len (JDict d) = Inr (length d)"
| "py_len (JStr s) = Inr (length s)"
| "py_len _ = Inl TypeError"

text \<open>A list comprehension whose element expression may raise.\<close>

fun for_each :: "('a \<Rightarrow> py_error + 'b) \<Rightarrow> 'a list \<Rightarrow> py_error + 'b list" where
  "for_each f [] = Inr []"
| "for_each f (x # xs) =
     (case f x of
        Inl e \<Rightarrow> Inl e
      | Inr y \<Rightarrow> (case for_each f xs of Inl e \<Rightarrow> Inl e | Inr ys \<Rightarrow> Inr (y # ys)))"

section \<open>Response Normalizer\<close>

text \<open>
  \<^verbatim>\<open>extract_from_wrapper(data, key)\<close>, lines 55 to 84. The list branch is
  \<^verbatim>\<open>[item.get(key, item) for item in data]\<close>; the dict branch returns
  \<^verbatim>\<open>data[key + 's']\<close> as it is, whatever value that is.
\<close>

fun extract_from_wrapper :: "json \<Rightarrow> string \<Rightarrow> py_error + json" where
  "extract_from_wrapper (JList items) key =
     (case for_each (\<lambda>item. py_get item key item) items of
        Inl e \<Rightarrow> Inl e
      | Inr extracted \<Rightarrow> Inr (JList extracted))"
| "extract_from_wrapper (JDict d) key =
     (let plural_key = key @ ''s'' in
      case map_of d plural_key of
        Some v \<Rightarrow> Inr v
      | None \<Rightarrow>
          (case map_of d key of
             Some v \<Rightarrow> Inr (JList [v])
           | None \<Rightarrow> Inr (JList [JDict d])))"
| "extract_from_wrapper _ key = Inr (JList [])"

section \<open>Resource Resolvers\<close>

text \<open>
  The requests of the program, by their path and parameters. The network is a parameter:
  \<open>api\<close> answers a request in a state \<open>w\<close> of the world with parsed JSON or an
  exception, and a new state, so that the same request may be answered differently later.
\<close>

datatype endpoint =
    Seasons
  | Events json
  | Rounds json
  | Tournaments json json
  | TournamentResults json json json

type_synonym 'w api = "endpoint \<Rightarrow> 'w \<Rightarrow> (py_error + json) \<times> 'w"

definition make_api_request :: "'w api \<Rightarrow> endpoint \<Rightarrow> 'w \<Rightarrow> (py_error + json) \<times> 'w" where
  "make_api_request api ep w = api ep w"

text \<open>
  The dictionary \<^verbatim>\<open>{'member_id': member_id, 'name': member_name, 'gross_score': gross_score}\<close>
  built by \<^verbatim>\<open>_extract_player_results\<close>, with the names of the variables it is built from.
\<close>

record player_result =
  member_id :: json
  member_name :: json
  gross_score :: json

text \<open>
  One pass of the loop of \<^verbatim>\<open>_extract_player_results\<close>, lines 225 to 239: five
  \<^verbatim>\<open>.get\<close> calls, then \<^verbatim>\<open>if member_id and member_name and gross_score is not None\<close>.
\<close>

definition extract_player :: "json \<Rightarrow> py_error + player_result option" where
  "extract_player player =
     py_bind (py_get player ''member_id'' JNull) (\<lambda>member_id.
     py_bind (py_get player ''name'' JNull) (\<lambda>member_name.
     py_bind (py_get player ''totals'' (JDict [])) (\<lambda>totals.
     py_bind (py_get totals ''gross_scores'' (JDict [])) (\<lambda>gross_scores.
     py_bind (py_get gross_scores ''total'' JNull) (\<lambda>gross_score.
       Inr (if truthy member_id \<and> truthy member_name \<and> gross_score \<noteq> JNull
            then Some \<lparr>member_id = member_id, member_name = member_name,
                       gross_score = gross_score\<rparr>
            else None))))))"

fun extract_player_loop ::
  "json list \<Rightarrow> player_result list \<Rightarrow> py_error + player_result list" where
  "extract_player_loop [] results = Inr results"
| "extract_player_loop (player # rest) results =
     (case extract_player player of
        Inl e \<Rightarrow> Inl e
      | Inr None \<Rightarrow> extract_player_loop rest results
      | Inr (Some r) \<Rightarrow> extract_player_loop rest (results @ [r]))"

definition extract_player_results :: "json \<Rightarrow> py_error + player_result list" where
  "extract_player_results individual_results =
     py_bind (py_iter individual_results) (\<lambda>players. extract_player_loop players [])"

text \<open>
  Every resolver is \<^verbatim>\<open>data = make_api_request(...)\<close> followed by code that only reads
  \<open>data\<close>.
\<close>

definition fetch ::
  "'w api \<Rightarrow> endpoint \<Rightarrow> (json \<Rightarrow> py_error + 'a) \<Rightarrow> 'w \<Rightarrow> (py_error + 'a) \<times> 'w" where
  "fetch api ep decode w =
     (case make_api_request api ep w of (response, w') \<Rightarrow> (py_bind response decode, w'))"

text \<open>
  \<^verbatim>\<open>get_events\<close>; \<^verbatim>\<open>len(events)\<close> in its print raises on a value without a length.
\<close>

definition get_events :: "'w api \<Rightarrow> json \<Rightarrow> 'w \<Rightarrow> (py_error + json) \<times> 'w" where
  "get_events api season_id =
     fetch api (Events season_id) (\<lambda>data.
       py_bind (extract_from_wrapper data ''event'') (\<lambda>events.
       py_bind (py_len events) (\<lambda>n. Inr events)))"

definition get_event_rounds :: "'w api \<Rightarrow> json \<Rightarrow> 'w \<Rightarrow> (py_error + json) \<times> 'w" where
  "get_event_rounds api event_id =
     fetch api (Rounds event_id) (\<lambda>data. extract_from_wrapper data ''round'')"

text \<open>
  \<^verbatim>\<open>get_tournament_ids\<close>, lines 148 to 170:
  \<^verbatim>\<open>tournament.get('event', {}).get('id')\<close>, kept when it is truthy.
\<close>

fun tournament_ids_loop :: "json list \<Rightarrow> json list \<Rightarrow> py_error + json list" where
  "tournament_ids_loop [] tournament_ids = Inr tournament_ids"
| "tournament_ids_loop (tournament # rest) tournament_ids =
     (case py_bind (py_get tournament ''event'' (JDict [])) (\<lambda>event. py_get event ''id'' JNull) of
        Inl e \<Rightarrow> Inl e
      | Inr tournament_id \<Rightarrow>
          tournament_ids_loop rest
            (if truthy tournament_id then tournament_ids @ [tournament_id] else tournament_ids))"

definition get_tournament_ids ::
  "'w api \<Rightarrow> json \<Rightarrow> json \<Rightarrow> 'w \<Rightarrow> (py_error + json list) \<times> 'w" where
  "get_tournament_ids api event_id round_id =
     fetch api (Tournaments event_id round_id) (\<lambda>data.
       py_bind (extract_from_wrapper data ''tournament'') (\<lambda>tournaments.
       py_bind (py_iter tournaments) (\<lambda>ts. tournament_ids_loop ts [])))"

text \<open>
  \<^verbatim>\<open>x[0]\<close>: the first element of a list or str; a dict has no key \<open>0\<close> (its keys are
  strings); other values are not subscriptable.
\<close>

fun py_first :: "json \<Rightarrow> py_error + json" where
  "py_first (JList []) = Inl IndexError"
| "py_first (JList (x # xs)) = Inr x"
| "py_first (JStr []) = Inl IndexError"
| "py_first (JStr (c # cs)) = Inr (JStr [c])"
| "py_first (JDict d) = Inl KeyError"
| "py_first _ = Inl TypeError"

text \<open>
  \<^verbatim>\<open>get_tournament_results\<close>, lines 173 to 210: the first extracted event (or
  \<^verbatim>\<open>{}\<close>), its scopes, and for each scope its aggregates, a list of objects or one object.
\<close>

definition aggregate_results :: "json \<Rightarrow> py_error + player_result list" where
  "aggregate_results aggregate =
     py_bind (py_get aggregate ''individual_results'' (JList [])) extract_player_results"

fun aggregates_loop :: "json list \<Rightarrow> player_result list \<Rightarrow> py_error + player_result list" where
  "aggregates_loop [] results = Inr results"
| "aggregates_loop (aggregate # rest) results =
     (case aggregate_results aggregate of
        Inl e \<Rightarrow> Inl e
      | Inr found \<Rightarrow> aggregates_loop rest (results @ found))"

fun scopes_loop :: "json list \<Rightarrow> player_result list \<Rightarrow> py_error + player_result list" where
  "scopes_loop [] results = Inr results"
| "scopes_loop (scope # rest) results =
     (case py_get scope ''aggregates'' (JDict []) of
        Inl e \<Rightarrow> Inl e
      | Inr aggregates \<Rightarrow>
          (case (case aggregates of
                   JList ags \<Rightarrow> aggregates_loop ags results
                 | _ \<Rightarrow> py_bind (aggregate_results aggregates)
                          (\<lambda>found. Inr (results @ found))) of
             Inl e \<Rightarrow> Inl e
           | Inr results' \<Rightarrow> scopes_loop rest results'))"

definition get_tournament_results ::
  "'w api \<Rightarrow> json \<Rightarrow> json \<Rightarrow> json \<Rightarrow> 'w \<Rightarrow> (py_error + player_result list) \<times> 'w" where
  "get_tournament_results api event_id round_id tournament_id =
     fetch api (TournamentResults event_id round_id tournament_id) (\<lambda>data.
       py_bind (extract_from_wrapper data ''event'') (\<lambda>events.
       py_bind (if truthy events then py_first events else Inr (JDict [])) (\<lambda>event_data.
       py_bind (py_get event_data ''scopes'' (JList [])) (\<lambda>scopes.
       py_bind (py_iter scopes) (\<lambda>scope_list. scopes_loop scope_list [])))))"

section \<open>Score Collector\<close>

text \<open>
  \<^verbatim>\<open>player_data\<close> is a dictionary keyed by \<^verbatim>\<open>member_id\<close>, kept in insertion order.
  A key is what Python hashes and compares: \<^verbatim>\<open>None\<close>, a number (\<^verbatim>\<open>True == 1 == 1.0\<close>
  are one key) or a str; a list or a dict is unhashable and raises \<^verbatim>\<open>TypeError\<close>.
\<close>

datatype pykey = KNone | KNum rat | KStr string

fun dict_key :: "json \<Rightarrow> py_error + pykey" where
  "dict_key JNull = Inr KNone"
| "dict_key (JBool b) = Inr (KNum (if b then 1 else 0))"
| "dict_key (JInt i) = Inr (KNum (of_int i))"
| "dict_key (JFloat q) = Inr (KNum q)"
| "dict_key (JStr s) = Inr (KStr s)"
| "dict_key (JList xs) = Inl TypeError"
| "dict_key (JDict d) = Inl TypeError"

type_synonym player_data = "(pykey \<times> (json, json) player_record) list"

text \<open>
  The \<^verbatim>\<open>defaultdict\<close>: reading a missing key first inserts
  \<^verbatim>\<open>{'name': '', 'scores': []}\<close> at the end (\<open>dict_touch\<close>); \<open>dict_modify\<close> changes the
  record stored under a key in place.
\<close>

definition default_record :: "(json, json) player_record" where
  "default_record = \<lparr>name = JStr [], scores = []\<rparr>"

definition dict_touch :: "'v \<Rightarrow> 'k \<Rightarrow> ('k \<times> 'v) list \<Rightarrow> ('k \<times> 'v) list" where
  "dict_touch dflt k d = (if k \<in> fst ` set d then d else d @ [(k, dflt)])"

definition dict_modify :: "'k \<Rightarrow> ('v \<Rightarrow> 'v) \<Rightarrow> ('k \<times> 'v) list \<Rightarrow> ('k \<times> 'v) list" where
  "dict_modify k f d = map (\<lambda>(k', v). if k' = k then (k', f v) else (k', v)) d"

text \<open>
  Lines 294 to 296, for one result: \<^verbatim>\<open>player_data[member_id]['name'] = result['name']\<close>
  and \<^verbatim>\<open>player_data[member_id]['scores'].append(result['gross_score'])\<close>. The loop over
  the results stops at the first exception and keeps what it has stored.
\<close>

definition store_result :: "player_data \<Rightarrow> player_result \<Rightarrow> py_error + player_data" where
  "store_result player_data result =
     py_bind (dict_key (member_id result)) (\<lambda>k.
       Inr (dict_modify k (\<lambda>data. data\<lparr>scores := scores data @ [gross_score result]\<rparr>)
             (dict_modify k (\<lambda>data. data\<lparr>name := member_name result\<rparr>)
               (dict_touch default_record k player_data))))"

fun store_results :: "player_data \<Rightarrow> player_result list \<Rightarrow> player_data \<times> py_error option" where
  "store_results player_data [] = (player_data, None)"
| "store_results player_data (result # rest) =
     (case store_result player_data result of
        Inl e \<Rightarrow> (player_data, Some e)
      | Inr player_data' \<Rightarrow> store_results player_data' rest)"

text \<open>
  The inner \<^verbatim>\<open>try\<close> of \<^verbatim>\<open>fetch_all_scores\<close>, lines 284 to 305: every exception is
  caught and the loop goes on with the next tournament.
\<close>

definition process_tournament ::
  "'w api \<Rightarrow> json \<Rightarrow> json \<Rightarrow> player_data \<times> 'w \<Rightarrow> json \<Rightarrow> player_data \<times> 'w" where
  "process_tournament api event_id round_id st tournament_id =
     (case st of (player_data, w) \<Rightarrow>
        (case get_tournament_results api event_id round_id tournament_id w of
           (Inl e, w') \<Rightarrow> (player_data, w')
         | (Inr results, w') \<Rightarrow>
             (if results \<noteq> [] then (fst (store_results player_data results), w')
              else (player_data, w'))))"

text \<open>
  The outer \<^verbatim>\<open>try\<close>, lines 277 to 312: the tournament ids, then the tournaments.
\<close>

definition process_round ::
  "'w api \<Rightarrow> json \<Rightarrow> player_data \<times> 'w \<Rightarrow> json \<Rightarrow> player_data \<times> 'w" where
  "process_round api event_id st round_id =
     (case st of (player_data, w) \<Rightarrow>
        (case get_tournament_ids api event_id round_id w of
           (Inl e, w') \<Rightarrow> (player_data, w')
         | (Inr tournament_ids, w') \<Rightarrow>
             foldl (process_tournament api event_id round_id) (player_data, w') tournament_ids))"

text \<open>
  The loop over the rounds, lines 274 to 312: \<^verbatim>\<open>round_id = round_data.get('id')\<close> stands
  before the \<^verbatim>\<open>try\<close>, so its exception leaves \<^verbatim>\<open>fetch_all_scores\<close>.
\<close>

fun rounds_loop ::
  "'w api \<Rightarrow> json \<Rightarrow> json list \<Rightarrow> player_data \<times> 'w \<Rightarrow> py_error + player_data \<times> 'w" where
  "rounds_loop api event_id [] st = Inr st"
| "rounds_loop api event_id (round_data # rest) st =
     (case py_get round_data ''id'' JNull of
        Inl e \<Rightarrow> Inl e
      | Inr round_id \<Rightarrow> rounds_loop api event_id rest (process_round api event_id st round_id))"

text \<open>
  The body of the loop over the events, lines 266 to 272 and the rounds loop; nothing here
  is caught.
\<close>

definition process_event ::
  "'w api \<Rightarrow> player_data \<times> 'w \<Rightarrow> json \<Rightarrow> py_error + player_data \<times> 'w" where
  "process_event api st event =
     (case st of (player_data, w) \<Rightarrow>
        py_bind (py_get event ''id'' JNull) (\<lambda>event_id.
        py_bind (py_get event ''name'' (JStr [])) (\<lambda>event_name.
          (case get_event_rounds api event_id w of
             (Inl e, w') \<Rightarrow> Inl e
           | (Inr rounds, w') \<Rightarrow>
               py_bind (py_len rounds) (\<lambda>n.
               py_bind (py_iter rounds) (\<lambda>round_list.
                 rounds_loop api event_id round_list (player_data, w')))))))"

fun events_loop ::
  "'w api \<Rightarrow> json list \<Rightarrow> player_data \<times> 'w \<Rightarrow> py_error + player_data \<times> 'w" where
  "events_loop api [] st = Inr st"
| "events_loop api (event # rest) st =
     (case process_event api st event of
        Inl e \<Rightarrow> Inl e
      | Inr st' \<Rightarrow> events_loop api rest st')"

text \<open>\<^verbatim>\<open>fetch_all_scores\<close>, returning \<^verbatim>\<open>dict(player_data)\<close>.\<close>

definition fetch_all_scores :: "'w api \<Rightarrow> json \<Rightarrow> 'w \<Rightarrow> py_error + player_data" where
  "fetch_all_scores api season_id w =
     (case get_events api season_id w of
        (Inl e, w') \<Rightarrow> Inl e
      | (Inr events, w') \<Rightarrow>
          py_bind (py_iter events) (\<lambda>event_list.
          py_bind (events_loop api event_list ([], w')) (\<lambda>st. Inr (fst st))))"

section \<open>Leaderboard Calculator\<close>

text \<open>
  A score as the calculator meets it: a Python int (a bool is the int it counts as), or a
  value that is not a number (a str, a list, a dict). With such a value among the scores
  of a record, either \<^verbatim>\<open>sorted\<close> raises \<^verbatim>\<open>TypeError\<close> on a comparison it does not
  support, or \<^verbatim>\<open>sum\<close> raises it on adding the value to \<open>0\<close>; \<open>numbers\<close> reads the
  scores as integers or raises. A float score is left out: its sum and mean are
  floating-point arithmetic.
\<close>

datatype score = IntScore int | NonNumber

fun numbers :: "score list \<Rightarrow> py_error + int list" where
  "numbers [] = Inr []"
| "numbers (IntScore i # rest) =
     (case numbers rest of Inl e \<Rightarrow> Inl e | Inr ns \<Rightarrow> Inr (i # ns))"
| "numbers (NonNumber # rest) = Inl TypeError"

text \<open>
  The tuple \<^verbatim>\<open>(data['name'], avg_best_5, num_rounds, best_5)\<close> appended to the
  leaderboard. The average is the exact quotient. On integer operands Python's \<^verbatim>\<open>/\<close>
  returns the double nearest to the quotient; two different quotients of sums by at most
  five differ by at least one twentieth, so for scores below \<open>2^40\<close> in magnitude their
  doubles differ and compare as the quotients do.
\<close>

record 'n leaderboard_entry =
  entry_name :: 'n
  avg_best_5 :: rat
  num_rounds :: nat
  best_5 :: "int list"

text \<open>
  \<^verbatim>\<open>a / b\<close> with \<open>b\<close> a length. A zero divisor raises \<^verbatim>\<open>ZeroDivisionError\<close>. The
  nearest double does not exist from the midpoint between the largest double and
  \<open>2^1024\<close> on, which is \<open>2^1024 - 2^970\<close>: there the division raises
  \<^verbatim>\<open>OverflowError\<close>.
\<close>

definition float_limit :: rat where
  "float_limit = 2 ^ 1024 - 2 ^ 970"

definition py_truediv :: "int \<Rightarrow> nat \<Rightarrow> py_error + rat" where
  "py_truediv a b =
     (if b = 0 then Inl ZeroDivisionError
      else if float_limit \<le> \<bar>of_int a / of_nat b\<bar> then Inl OverflowError
      else Inr (of_int a / of_nat b))"

text \<open>
  Lines 338 to 347: \<^verbatim>\<open>best_5 = sorted(scores)[:5]\<close>,
  \<^verbatim>\<open>avg_best_5 = sum(best_5) / len(best_5)\<close> and the tuple built from them.
\<close>

definition make_entry :: "('n, score) player_record \<Rightarrow> py_error + 'n leaderboard_entry" where
  "make_entry data =
     (case numbers (scores data) of
        Inl e \<Rightarrow> Inl e
      | Inr ints \<Rightarrow>
          (let b5 = take 5 (sort ints) in
           case py_truediv (sum_list b5) (length b5) of
             Inl e \<Rightarrow> Inl e
           | Inr avg \<Rightarrow>
               Inr \<lparr>entry_name = name data, avg_best_5 = avg,
                    num_rounds = length (scores data), best_5 = b5\<rparr>))"

text \<open>
  The loop over \<^verbatim>\<open>player_data.items()\<close>, in the dictionary's insertion order, with the
  list \<^verbatim>\<open>leaderboard\<close> built so far. An exception leaves the loop and the function.
\<close>

fun leaderboard_loop ::
  "('k \<times> ('n, score) player_record) list \<Rightarrow> int \<Rightarrow> 'n leaderboard_entry list
     \<Rightarrow> py_error + 'n leaderboard_entry list" where
  "leaderboard_loop [] min_rounds leaderboard = Inr leaderboard"
| "leaderboard_loop ((mid, data) # rest) min_rounds leaderboard =
     (if int (length (scores data)) < min_rounds
      then leaderboard_loop rest min_rounds leaderboard
      else case make_entry data of
             Inl e \<Rightarrow> Inl e
           | Inr entry \<Rightarrow> leaderboard_loop rest min_rounds (leaderboard @ [entry]))"

text \<open>
  \<^verbatim>\<open>calculate_leaderboard\<close>: the loop, then \<^verbatim>\<open>leaderboard.sort(key=lambda x: x[1])\<close>.
  Python's sort is stable, and so is \<open>sort_key\<close>; a stable sort by a key has one result.
\<close>

definition calculate_leaderboard ::
  "('k \<times> ('n, score) player_record) list \<Rightarrow> int \<Rightarrow> py_error + 'n leaderboard_entry list" where
  "calculate_leaderboard player_data min_rounds =
     (case leaderboard_loop player_data min_rounds [] of
        Inl e \<Rightarrow> Inl e
      | Inr leaderboard \<Rightarrow> Inr (sort_key avg_best_5 leaderboard))"

text \<open>The qualification test of line 335, read positively.\<close>

definition qualifies :: "int \<Rightarrow> ('k \<times> ('n, 's) player_record) \<Rightarrow> bool" where
  "qualifies min_rounds item = (min_rounds \<le> int (length (scores (snd item))))"

text \<open>
  A record whose entry can be computed, and a map with a qualifying record whose entry
  cannot: the one way the loop fails.
\<close>

definition succeeds :: "('k \<times> ('n, score) player_record) \<Rightarrow> bool" where
  "succeeds item = (case make_entry (snd item) of Inl e \<Rightarrow> False | Inr e \<Rightarrow> True)"

definition blocked :: "int \<Rightarrow> ('k \<times> ('n, score) player_record) list \<Rightarrow> bool" where
  "blocked min_rounds player_data =
     (\<exists>item \<in> set player_data. qualifies min_rounds item \<and> \<not> succeeds item)"

text \<open>The mean of the five smallest of a list of integers, or of all of them when fewer.\<close>

definition mean_of_best :: "int list \<Rightarrow> rat" where
  "mean_of_best ints =
     of_int (sum_list (take 5 (sort ints))) / of_nat (length (take 5 (sort ints)))"

section \<open>Notions used in the statements\<close>

text \<open>
  What the normalizer keeps for an element of a sequence: the value under the wrapper key
  when the element is an object that has the key, the element itself otherwise.
\<close>

definition unwrap :: "string \<Rightarrow> json \<Rightarrow> json" where
  "unwrap key item =
     (case item of
        JDict d \<Rightarrow> (case map_of d key of Some v \<Rightarrow> v | None \<Rightarrow> item)
      | _ \<Rightarrow> item)"

text \<open>
  The value stored under a key of an object, if any, and the value at the path
  \<^verbatim>\<open>totals.gross_scores.total\<close> of a result item.
\<close>

fun field :: "json \<Rightarrow> string \<Rightarrow> json option" where
  "field (JDict d) key = map_of d key"
| "field _ key = None"

definition gross_total :: "json \<Rightarrow> json option" where
  "gross_total player =
     Option.bind (field player ''totals'') (\<lambda>totals.
     Option.bind (field totals ''gross_scores'') (\<lambda>gross_scores.
       field gross_scores ''total''))"

text \<open>
  A result item is an object whose \<^verbatim>\<open>totals\<close> and \<^verbatim>\<open>totals.gross_scores\<close> are
  objects where they are present.
\<close>

definition well_shaped :: "json \<Rightarrow> bool" where
  "well_shaped player =
     (is_dict player \<and>
      (case field player ''totals'' of
         None \<Rightarrow> True
       | Some totals \<Rightarrow>
           is_dict totals \<and>
           (case field totals ''gross_scores'' of
              None \<Rightarrow> True
            | Some gross_scores \<Rightarrow> is_dict gross_scores)))"

text \<open>
  The result of a valid item: its three values, when \<^verbatim>\<open>member_id\<close> and
  \<^verbatim>\<open>name\<close> are present and truthy and the total is present and not null.
\<close>

definition result_of :: "json \<Rightarrow> player_result option" where
  "result_of player =
     (case (field player ''member_id'', field player ''name'', gross_total player) of
        (Some m, Some n, Some g) \<Rightarrow>
          if truthy m \<and> truthy n \<and> g \<noteq> JNull
          then Some \<lparr>member_id = m, member_name = n, gross_score = g\<rparr>
          else None
      | _ \<Rightarrow> None)"

text \<open>
  The results of one member among a sequence of results, by the dictionary key of their
  \<^verbatim>\<open>member_id\<close>, and the scores a map already holds for a key.
\<close>

definition results_for :: "pykey \<Rightarrow> player_result list \<Rightarrow> player_result list" where
  "results_for k results = filter (\<lambda>r. dict_key (member_id r) = Inr k) results"

definition stored_scores :: "player_data \<Rightarrow> pykey \<Rightarrow> json list" where
  "stored_scores player_data k = (case map_of player_data k of None \<Rightarrow> [] | Some d \<Rightarrow> scores d)"

section \<open>Sample responses\<close>

text \<open>
  Two networks with one event. In the first, the event has the rounds 10 and 11; the
  tournament ids of round 10 cannot be fetched; round 11 has the tournaments 101, whose
  results cannot be fetched, and 100, with two results. In the second, the rounds response
  wraps a null beside a round.
\<close>

definition result_json :: "string \<Rightarrow> string \<Rightarrow> int \<Rightarrow> json" where
  "result_json m n g =
     JDict [(''member_id'', JStr m), (''name'', JStr n),
            (''totals'', JDict [(''gross_scores'', JDict [(''total'', JInt g)])])]"

definition results_json :: "json list \<Rightarrow> json" where
  "results_json players =
     JDict [(''event'', JDict [(''scopes'',
       JList [JDict [(''aggregates'', JDict [(''individual_results'', JList players)])]])])]"

definition failing_round_api :: "unit api" where
  "failing_round_api ep w =
     (case ep of
        Events s \<Rightarrow> (Inr (JList [JDict [(''event'', JDict [(''id'', JInt 1)])]]), w)
      | Rounds e \<Rightarrow>
          (Inr (JDict [(''rounds'', JList [JDict [(''id'', JInt 10)], JDict [(''id'', JInt 11)]])]), w)
      | Tournaments e r \<Rightarrow>
          (if r = JInt 10 then (Inl RequestException, w)
           else (Inr (JList [JDict [(''event'', JDict [(''id'', JInt 101)])],
                             JDict [(''event'', JDict [(''id'', JInt 100)])]]), w))
      | TournamentResults e r t \<Rightarrow>
          (if t = JInt 101 then (Inl RequestException, w)
           else (Inr (results_json [result_json ''m1'' ''Ann'' 72, result_json ''m2'' ''Bob'' 80]), w))
      | Seasons \<Rightarrow> (Inl RequestException, w))"

definition null_round_api :: "unit api" where
  "null_round_api ep w =
     (case ep of
        Events s \<Rightarrow> (Inr (JList [JDict [(''event'', JDict [(''id'', JInt 1)])]]), w)
      | Rounds e \<Rightarrow>
          (Inr (JList [JDict [(''round'', JDict [(''id'', JInt 11)])],
                       JDict [(''round'', JNull)]]), w)
      | Tournaments e r \<Rightarrow>
          (Inr (JList [JDict [(''event'', JDict [(''id'', JInt 100)])]]), w)
      | TournamentResults e r t \<Rightarrow>
          (Inr (results_json [result_json ''m1'' ''Ann'' 72, result_json ''m2'' ''Bob'' 80]), w)
      | Seasons \<Rightarrow> (Inl RequestException, w))"

section \<open>Properties of the Response Normalizer\<close>

lemma for_each_map:
  "\<forall>x \<in> set xs. f x = Inr (g x) \<Longrightarrow> for_each f xs = Inr (map g xs)"
  by (induction xs) simp_all

lemma for_each_fails:
  assumes "\<And>x. x \<in> set xs \<Longrightarrow> f x = Inl err \<or> (\<exists>y. f x = Inr y)"
    and "\<exists>x \<in> set xs. f x = Inl err"
  shows "for_each f xs = Inl err"
  using assms
proof (induction xs)
  case Nil
  then show ?case by simp
next
  case (Cons x xs)
  show ?case
  proof (cases "f x")
    case (Inl e)
    with Cons.prems(1) [of x] show ?thesis by auto
  next
    case (Inr y)
    with Cons.prems(2) have "\<exists>x \<in> set xs. f x = Inl err" by auto
    with Cons.IH Cons.prems(1) have "for_each f xs = Inl err" by auto
    with Inr show ?thesis by simp
  qed
qed

lemma py_get_self: "is_dict item \<Longrightarrow> py_get item key item = Inr (unwrap key item)"
  by (cases item) (simp_all add: unwrap_def)

lemma py_get_not_dict: "\<not> is_dict item \<Longrightarrow> py_get item key dflt = Inl AttributeError"
  by (cases item) simp_all

text \<open>
  A sequence with an element that is not an object: \<^verbatim>\<open>item.get\<close> raises
  \<^verbatim>\<open>AttributeError\<close> on the integer.
\<close>

theorem extract_from_wrapper_sequence_counterexample:
  "extract_from_wrapper (JList [JDict [(''event'', JDict [(''id'', JInt 5)])], JInt 7]) ''event''
     = Inl AttributeError"
  by simp

text \<open>
  C4 (amended). For every sequence whose elements are all objects, the normalizer returns,
  in the original order, for each element the value under the wrapper key if the element
  has it and the element itself otherwise, without error; a sequence with an element that
  is not an object raises \<^verbatim>\<open>AttributeError\<close>.
\<close>

theorem extract_from_wrapper_sequence:
  "(list_all is_dict items \<longrightarrow>
      extract_from_wrapper (JList items) key = Inr (JList (map (unwrap key) items)))
   \<and> (\<not> list_all is_dict items \<longrightarrow>
      extract_from_wrapper (JList items) key = Inl AttributeError)"
proof (cases "list_all is_dict items")
  case True
  then have "\<forall>item \<in> set items. py_get item key item = Inr (unwrap key item)"
    by (simp add: list_all_iff py_get_self)
  then have "for_each (\<lambda>item. py_get item key item) items = Inr (map (unwrap key) items)"
    by (rule for_each_map)
  with True show ?thesis by simp
next
  case False
  then obtain bad_item where "bad_item \<in> set items" "\<not> is_dict bad_item"
    by (auto simp: list_all_iff)
  then have bad: "\<exists>item \<in> set items. py_get item key item = Inl AttributeError"
    using py_get_not_dict [of bad_item key bad_item] by blast
  have "py_get item key item = Inl AttributeError \<or> (\<exists>y. py_get item key item = Inr y)" for item
    by (cases "is_dict item") (simp_all add: py_get_self py_get_not_dict)
  with bad have "for_each (\<lambda>item. py_get item key item) items = Inl AttributeError"
    by (intro for_each_fails) auto
  with False show ?thesis by simp
qed

theorem extract_from_wrapper_sequence_witness:
  "extract_from_wrapper (JList [JDict [(''event'', JDict [(''id'', JInt 5)])], JDict [(''id'', JInt 6)]]) ''event''
     = Inr (JList [JDict [(''id'', JInt 5)], JDict [(''id'', JInt 6)]])
   \<and> extract_from_wrapper (JList [JStr ''x'']) ''event'' = Inl AttributeError"
  using extract_from_wrapper_sequence
          [of "[JDict [(''event'', JDict [(''id'', JInt 5)])], JDict [(''id'', JInt 6)]]" "''event''"]
        extract_from_wrapper_sequence [of "[JStr ''x'']" "''event''"]
  by (simp add: unwrap_def)

text \<open>
  C5. For an object, the normalizer returns the value under the pluralized key as it is
  when that key is present; otherwise a one-element sequence with the value under the
  wrapper key when that is present; otherwise a one-element sequence with the object
  itself. For a value that is neither a sequence nor an object it returns the empty
  sequence.
\<close>

theorem extract_from_wrapper_object:
  "(map_of d (key @ ''s'') = Some v \<longrightarrow> extract_from_wrapper (JDict d) key = Inr v)
   \<and> (map_of d (key @ ''s'') = None \<and> map_of d key = Some v \<longrightarrow>
        extract_from_wrapper (JDict d) key = Inr (JList [v]))
   \<and> (map_of d (key @ ''s'') = None \<and> map_of d key = None \<longrightarrow>
        extract_from_wrapper (JDict d) key = Inr (JList [JDict d]))
   \<and> (\<not> is_list data \<and> \<not> is_dict data \<longrightarrow> extract_from_wrapper data key = Inr (JList []))"
  by (cases data) simp_all

theorem extract_from_wrapper_object_witness:
  "extract_from_wrapper (JDict [(''events'', JList [JDict [(''id'', JInt 1)], JDict [(''id'', JInt 2)]])]) ''event''
     = Inr (JList [JDict [(''id'', JInt 1)], JDict [(''id'', JInt 2)]])
   \<and> extract_from_wrapper (JDict [(''event'', JDict [(''id'', JInt 1)])]) ''event''
     = Inr (JList [JDict [(''id'', JInt 1)]])
   \<and> extract_from_wrapper (JDict [(''id'', JInt 1)]) ''event'' = Inr (JList [JDict [(''id'', JInt 1)]])
   \<and> extract_from_wrapper (JStr ''oops'') ''event'' = Inr (JList [])"
  using extract_from_wrapper_object
          [of "[(''events'', JList [JDict [(''id'', JInt 1)], JDict [(''id'', JInt 2)]])]" "''event''"
              "JList [JDict [(''id'', JInt 1)], JDict [(''id'', JInt 2)]]" "JStr ''oops''"]
        extract_from_wrapper_object
          [of "[(''event'', JDict [(''id'', JInt 1)])]" "''event''" "JDict [(''id'', JInt 1)]" "JStr ''oops''"]
        extract_from_wrapper_object
          [of "[(''id'', JInt 1)]" "''event''" "JNull" "JStr ''oops''"]
  by simp

section \<open>Properties of the player-result extraction\<close>

lemma extract_player_well_shaped:
  assumes "well_shaped player"
  shows "extract_player player = Inr (result_of player)"
proof -
  from assms obtain d where d: "player = JDict d"
    by (cases player) (simp_all add: well_shaped_def)
  show ?thesis
  proof (cases "map_of d ''totals''")
    case None
    then show ?thesis
      by (simp add: d extract_player_def result_of_def gross_total_def split: option.splits)
  next
    case (Some totals)
    with assms d obtain t where t: "totals = JDict t"
      by (cases totals) (simp_all add: well_shaped_def)
    show ?thesis
    proof (cases "map_of t ''gross_scores''")
      case None
      with Some t show ?thesis
        by (simp add: d extract_player_def result_of_def gross_total_def split: option.splits)
    next
      case gs: (Some gross_scores)
      with assms d Some t obtain g where g: "gross_scores = JDict g"
        by (cases gross_scores) (simp_all add: well_shaped_def)
      with Some t gs show ?thesis
        by (simp add: d extract_player_def result_of_def gross_total_def split: option.splits)
    qed
  qed
qed

lemma extract_player_loop_well_shaped:
  "list_all well_shaped players \<Longrightarrow>
   extract_player_loop players results = Inr (results @ List.map_filter result_of players)"
proof (induction players arbitrary: results)
  case Nil
  then show ?case by simp
next
  case (Cons player players)
  then have "extract_player player = Inr (result_of player)"
    by (simp add: extract_player_well_shaped)
  with Cons show ?case
    by (cases "result_of player") simp_all
qed

text \<open>
  An item with all three values present and not null, but an empty name, is dropped; and
  an item whose \<^verbatim>\<open>totals\<close> is null is not dropped silently: \<^verbatim>\<open>totals.get\<close> raises
  \<^verbatim>\<open>AttributeError\<close> and no item of the list is returned.
\<close>

theorem extract_player_results_valid_counterexample:
  "extract_player_results (JList
     [JDict [(''member_id'', JStr ''m1''), (''name'', JStr []),
             (''totals'', JDict [(''gross_scores'', JDict [(''total'', JInt 72)])])],
      JDict [(''member_id'', JStr ''m2''), (''name'', JStr ''Bob''),
             (''totals'', JDict [(''gross_scores'', JDict [(''total'', JInt 80)])])]])
     = Inr [\<lparr>member_id = JStr ''m2'', member_name = JStr ''Bob'', gross_score = JInt 80\<rparr>]
   \<and> extract_player_results (JList
     [JDict [(''member_id'', JStr ''m1''), (''name'', JStr ''Ann''), (''totals'', JNull)],
      JDict [(''member_id'', JStr ''m2''), (''name'', JStr ''Bob''),
             (''totals'', JDict [(''gross_scores'', JDict [(''total'', JInt 80)])])]])
     = Inl AttributeError"
  by (simp add: extract_player_results_def extract_player_def)

text \<open>
  C6 (amended). For every list of result items that are objects whose
  \<^verbatim>\<open>totals\<close> and \<^verbatim>\<open>totals.gross_scores\<close> are objects where present, the extraction
  raises nothing and returns, in order, the results of exactly the items whose
  \<^verbatim>\<open>member_id\<close> and \<^verbatim>\<open>name\<close> are present and truthy and whose
  \<^verbatim>\<open>totals.gross_scores.total\<close> is present and not null, each mapped to its three
  values; every other item is dropped.
\<close>

theorem extract_player_results_valid:
  assumes "list_all well_shaped items"
  shows "extract_player_results (JList items) = Inr (List.map_filter result_of items)
       \<and> (\<forall>item \<in> set items.
            result_of item \<noteq> None \<longleftrightarrow>
              (\<exists>m n g. field item ''member_id'' = Some m \<and> truthy m
                     \<and> field item ''name'' = Some n \<and> truthy n
                     \<and> gross_total item = Some g \<and> g \<noteq> JNull))"
proof -
  have "extract_player_results (JList items) = Inr (List.map_filter result_of items)"
    using extract_player_loop_well_shaped [OF assms, of "[]"]
    by (simp add: extract_player_results_def)
  moreover have "result_of item \<noteq> None \<longleftrightarrow>
              (\<exists>m n g. field item ''member_id'' = Some m \<and> truthy m
                     \<and> field item ''name'' = Some n \<and> truthy n
                     \<and> gross_total item = Some g \<and> g \<noteq> JNull)" for item
    by (auto simp: result_of_def split: option.splits)
  ultimately show ?thesis by blast
qed

theorem extract_player_results_valid_witness:
  "extract_player_results (JList
     [JDict [(''member_id'', JStr ''m1''), (''name'', JStr ''Ann''),
             (''totals'', JDict [(''gross_scores'', JDict [(''total'', JInt 72)])])],
      JDict [(''member_id'', JStr ''m2''), (''name'', JStr ''Bob''),
             (''totals'', JDict [(''gross_scores'', JDict [])])],
      JDict [(''member_id'', JStr ''m3''), (''name'', JStr ''Cat''),
             (''totals'', JDict [(''gross_scores'', JDict [(''total'', JInt 0)])])]])
     = Inr [\<lparr>member_id = JStr ''m1'', member_name = JStr ''Ann'', gross_score = JInt 72\<rparr>,
            \<lparr>member_id = JStr ''m3'', member_name = JStr ''Cat'', gross_score = JInt 0\<rparr>]"
proof -
  let ?items = "[JDict [(''member_id'', JStr ''m1''), (''name'', JStr ''Ann''),
             (''totals'', JDict [(''gross_scores'', JDict [(''total'', JInt 72)])])],
      JDict [(''member_id'', JStr ''m2''), (''name'', JStr ''Bob''),
             (''totals'', JDict [(''gross_scores'', JDict [])])],
      JDict [(''member_id'', JStr ''m3''), (''name'', JStr ''Cat''),
             (''totals'', JDict [(''gross_scores'', JDict [(''total'', JInt 0)])])]]"
  have ws: "list_all well_shaped ?items"
    by (simp add: well_shaped_def)
  from extract_player_results_valid [OF ws] show ?thesis
    by (simp add: result_of_def gross_total_def)
qed

section \<open>Properties of the Score Collector\<close>

lemma map_of_dict_modify:
  "map_of (dict_modify k f d) k' = (if k' = k then map_option f (map_of d k) else map_of d k')"
  by (induction d) (auto simp: dict_modify_def)

lemma keys_dict_modify: "map fst (dict_modify k f d) = map fst d"
  by (induction d) (auto simp: dict_modify_def)

lemma map_of_dict_touch:
  "map_of (dict_touch dflt k d) k' =
     (if k' = k \<and> map_of d k = None then Some dflt else map_of d k')"
proof (cases "k \<in> fst ` set d")
  case True
  then have "map_of d k \<noteq> None" by (simp add: map_of_eq_None_iff)
  with True show ?thesis by (simp add: dict_touch_def)
next
  case False
  then have none: "map_of d k = None" by (simp add: map_of_eq_None_iff)
  have "map_of (d @ [(k, dflt)]) k' = (if k' = k then Some dflt else map_of d k')"
    using none by (cases "map_of d k'") (auto simp: map_add_def)
  with False none show ?thesis by (simp add: dict_touch_def)
qed

lemma keys_dict_touch:
  "map fst (dict_touch dflt k d) = (if k \<in> set (map fst d) then map fst d else map fst d @ [k])"
  by (simp add: dict_touch_def)

lemma dict_key_hashable:
  "\<not> is_list j \<Longrightarrow> \<not> is_dict j \<Longrightarrow> \<exists>k. dict_key j = Inr k"
  by (cases j) simp_all

lemma dict_key_unhashable:
  "is_list j \<or> is_dict j \<Longrightarrow> dict_key j = Inl TypeError"
  by (cases j) simp_all

lemma store_result_Inr:
  assumes "dict_key (member_id r) = Inr k"
  shows "\<exists>pd'. store_result pd r = Inr pd'
           \<and> (\<forall>k'. map_of pd' k' =
                 (if k' = k
                  then Some \<lparr>name = member_name r, scores = stored_scores pd k @ [gross_score r]\<rparr>
                  else map_of pd k'))
           \<and> map fst pd' = (if k \<in> set (map fst pd) then map fst pd else map fst pd @ [k])"
proof -
  let ?pd' = "dict_modify k (\<lambda>data. data\<lparr>scores := scores data @ [gross_score r]\<rparr>)
             (dict_modify k (\<lambda>data. data\<lparr>name := member_name r\<rparr>)
               (dict_touch default_record k pd))"
  have run: "store_result pd r = Inr ?pd'"
    by (simp add: store_result_def assms)
  have look: "map_of ?pd' k' =
                 (if k' = k
                  then Some \<lparr>name = member_name r, scores = stored_scores pd k @ [gross_score r]\<rparr>
                  else map_of pd k')" for k'
    by (cases "map_of pd k")
       (auto simp: map_of_dict_modify map_of_dict_touch stored_scores_def default_record_def)
  have keys: "map fst ?pd' = (if k \<in> set (map fst pd) then map fst pd else map fst pd @ [k])"
    by (simp only: keys_dict_modify keys_dict_touch)
  from run look keys show ?thesis by blast
qed

lemma store_results_hashable:
  assumes "\<forall>r \<in> set results. \<not> is_list (member_id r) \<and> \<not> is_dict (member_id r)"
  shows "snd (store_results pd results) = None
       \<and> (\<forall>k. map_of (fst (store_results pd results)) k =
            (if results_for k results = [] then map_of pd k
             else Some \<lparr>name = member_name (last (results_for k results)),
                        scores = stored_scores pd k @ map gross_score (results_for k results)\<rparr>))
       \<and> set (map fst (fst (store_results pd results)))
           = set (map fst pd) \<union> {k. results_for k results \<noteq> []}
       \<and> (distinct (map fst pd) \<longrightarrow> distinct (map fst (fst (store_results pd results))))"
  using assms
proof (induction results arbitrary: pd)
  case Nil
  show ?case by (simp add: results_for_def)
next
  case (Cons r rs)
  from Cons.prems obtain k where k: "dict_key (member_id r) = Inr k"
    using dict_key_hashable [of "member_id r"] by auto
  from store_result_Inr [OF k, of pd] obtain pd1 where
    run: "store_result pd r = Inr pd1"
    and look: "\<And>k'. map_of pd1 k' =
                 (if k' = k
                  then Some \<lparr>name = member_name r, scores = stored_scores pd k @ [gross_score r]\<rparr>
                  else map_of pd k')"
    and keys: "map fst pd1 = (if k \<in> set (map fst pd) then map fst pd else map fst pd @ [k])"
    by blast
  from Cons.prems have rest: "\<forall>r \<in> set rs. \<not> is_list (member_id r) \<and> \<not> is_dict (member_id r)"
    by simp
  note IH = Cons.IH [OF rest, of pd1]
  have step: "store_results pd (r # rs) = store_results pd1 rs"
    by (simp add: run)
  have for_k: "results_for k (r # rs) = r # results_for k rs"
    by (simp add: results_for_def k)
  have for_other: "results_for k' (r # rs) = results_for k' rs" if "k' \<noteq> k" for k'
    using that by (simp add: results_for_def k)
  have stored_k: "stored_scores pd1 k = stored_scores pd k @ [gross_score r]"
    by (simp add: stored_scores_def look)
  have stored_other: "stored_scores pd1 k' = stored_scores pd k'" if "k' \<noteq> k" for k'
    using that by (simp add: stored_scores_def look)
  have c1: "snd (store_results pd (r # rs)) = None"
    using IH by (simp only: step)
  have c2: "map_of (fst (store_results pd (r # rs))) k' =
            (if results_for k' (r # rs) = [] then map_of pd k'
             else Some \<lparr>name = member_name (last (results_for k' (r # rs))),
                        scores = stored_scores pd k' @ map gross_score (results_for k' (r # rs))\<rparr>)"
    for k'
  proof (cases "k' = k")
    case True
    from IH have "map_of (fst (store_results pd1 rs)) k =
            (if results_for k rs = [] then map_of pd1 k
             else Some \<lparr>name = member_name (last (results_for k rs)),
                        scores = stored_scores pd1 k @ map gross_score (results_for k rs)\<rparr>)"
      by blast
    then show ?thesis
      unfolding step True for_k by (simp add: look stored_k)
  next
    case False
    from IH have "map_of (fst (store_results pd1 rs)) k' =
            (if results_for k' rs = [] then map_of pd1 k'
             else Some \<lparr>name = member_name (last (results_for k' rs)),
                        scores = stored_scores pd1 k' @ map gross_score (results_for k' rs)\<rparr>)"
      by blast
    then show ?thesis
      unfolding step for_other [OF False] by (simp add: look False stored_other [OF False])
  qed
  have c3: "set (map fst (fst (store_results pd (r # rs))))
           = set (map fst pd) \<union> {k'. results_for k' (r # rs) \<noteq> []}"
  proof -
    from IH have "set (map fst (fst (store_results pd1 rs)))
           = set (map fst pd1) \<union> {k'. results_for k' rs \<noteq> []}" by blast
    moreover have "set (map fst pd1) = insert k (set (map fst pd))"
      by (auto simp: keys)
    moreover have "{k'. results_for k' (r # rs) \<noteq> []} = insert k {k'. results_for k' rs \<noteq> []}"
    proof (rule set_eqI)
      fix x
      show "x \<in> {k'. results_for k' (r # rs) \<noteq> []} \<longleftrightarrow> x \<in> insert k {k'. results_for k' rs \<noteq> []}"
        by (cases "x = k") (simp_all add: for_k for_other)
    qed
    ultimately show ?thesis unfolding step by auto
  qed
  have c4: "distinct (map fst pd) \<longrightarrow> distinct (map fst (fst (store_results pd (r # rs))))"
  proof
    assume "distinct (map fst pd)"
    then have "distinct (map fst pd1)" by (simp add: keys)
    with IH show "distinct (map fst (fst (store_results pd (r # rs))))"
      unfolding step by blast
  qed
  from c1 c2 c3 c4 show ?case by blast
qed

lemma store_results_None_iff:
  "snd (store_results pd results) = None \<longleftrightarrow>
     (\<forall>r \<in> set results. \<not> is_list (member_id r) \<and> \<not> is_dict (member_id r))"
proof (induction results arbitrary: pd)
  case Nil
  show ?case by simp
next
  case (Cons r rs)
  show ?case
  proof (cases "is_list (member_id r) \<or> is_dict (member_id r)")
    case True
    then have "dict_key (member_id r) = Inl TypeError"
      by (rule dict_key_unhashable)
    then have "store_result pd r = Inl TypeError"
      by (simp add: store_result_def)
    with True show ?thesis by auto
  next
    case False
    then obtain k where "dict_key (member_id r) = Inr k"
      using dict_key_hashable [of "member_id r"] by auto
    then obtain pd1 where "store_result pd r = Inr pd1"
      using store_result_Inr [of r k pd] by blast
    with False Cons.IH [of pd1] show ?thesis by simp
  qed
qed

lemma store_results_append:
  "snd (store_results pd rs1) = None \<Longrightarrow>
   store_results pd (rs1 @ rs2) = store_results (fst (store_results pd rs1)) rs2"
proof (induction rs1 arbitrary: pd)
  case Nil
  show ?case by simp
next
  case (Cons r rs1)
  show ?case
  proof (cases "store_result pd r")
    case (Inl err)
    with Cons.prems show ?thesis by simp
  next
    case (Inr pd1)
    with Cons.prems have "snd (store_results pd1 rs1) = None" by simp
    from Cons.IH [OF this] Inr show ?thesis by simp
  qed
qed

lemma store_results_unhashable:
  assumes "\<forall>r \<in> set before. \<not> is_list (member_id r) \<and> \<not> is_dict (member_id r)"
    and "is_list (member_id bad) \<or> is_dict (member_id bad)"
  shows "store_results pd (before @ bad # after) = (fst (store_results pd before), Some TypeError)"
proof -
  from assms(1) have fin: "snd (store_results pd before) = None"
    by (simp only: store_results_None_iff)
  from assms(2) have "dict_key (member_id bad) = Inl TypeError"
    by (rule dict_key_unhashable)
  then have "store_result pd' bad = Inl TypeError" for pd'
    by (simp add: store_result_def)
  then have "store_results pd' (bad # after) = (pd', Some TypeError)" for pd'
    by simp
  with store_results_append [OF fin, of "bad # after"] show ?thesis by simp
qed

text \<open>
  A result whose member id is a list, between two results with string ids: the lookup
  \<^verbatim>\<open>player_data[member_id]\<close> raises \<^verbatim>\<open>TypeError\<close>, the merge stops, and the result
  after it has no record.
\<close>

theorem store_results_records_counterexample:
  "store_results []
     [\<lparr>member_id = JStr ''m1'', member_name = JStr ''Ann'', gross_score = JInt 72\<rparr>,
      \<lparr>member_id = JList [JInt 1], member_name = JStr ''Zed'', gross_score = JInt 90\<rparr>,
      \<lparr>member_id = JStr ''m2'', member_name = JStr ''Bob'', gross_score = JInt 80\<rparr>]
     = ([(KStr ''m1'', \<lparr>name = JStr ''Ann'', scores = [JInt 72]\<rparr>)], Some TypeError)"
  by (simp add: store_result_def dict_touch_def dict_modify_def default_record_def)

text \<open>
  C8 (amended). The merge of a sequence of results completes exactly when every member
  id is a dictionary key (not a list or an object). For such a sequence, merged into a
  map, the map then has one record per key; its keys are the ones it had and the member
  ids of the results; the record of a member id with results holds the scores it had
  followed by the gross scores of all results of that member id, in the order encountered,
  and the name of the last of them; every other record is unchanged. A result whose member
  id is not a dictionary key stops the merge with \<^verbatim>\<open>TypeError\<close>: the results before
  it are stored, it and the results after it are not.
\<close>

theorem store_results_records:
  "(snd (store_results pd results) = None \<longleftrightarrow>
      (\<forall>r \<in> set results. \<not> is_list (member_id r) \<and> \<not> is_dict (member_id r)))
   \<and> ((\<forall>r \<in> set results. \<not> is_list (member_id r) \<and> \<not> is_dict (member_id r))
        \<and> distinct (map fst pd) \<longrightarrow>
         snd (store_results pd results) = None
       \<and> distinct (map fst (fst (store_results pd results)))
       \<and> set (map fst (fst (store_results pd results)))
           = set (map fst pd) \<union> {k. \<exists>r \<in> set results. dict_key (member_id r) = Inr k}
       \<and> (\<forall>k. results_for k results \<noteq> [] \<longrightarrow>
             map_of (fst (store_results pd results)) k =
               Some \<lparr>name = member_name (last (results_for k results)),
                     scores = stored_scores pd k @ map gross_score (results_for k results)\<rparr>)
       \<and> (\<forall>k. results_for k results = [] \<longrightarrow>
             map_of (fst (store_results pd results)) k = map_of pd k))
   \<and> ((\<forall>r \<in> set before. \<not> is_list (member_id r) \<and> \<not> is_dict (member_id r))
        \<and> (is_list (member_id bad) \<or> is_dict (member_id bad)) \<longrightarrow>
         store_results pd (before @ bad # after)
           = (fst (store_results pd before), Some TypeError))"
proof -
  have keys: "{k. results_for k results \<noteq> []}
                = {k. \<exists>r \<in> set results. dict_key (member_id r) = Inr k}"
    by (auto simp: results_for_def filter_empty_conv)
  have merged: "snd (store_results pd results) = None
       \<and> distinct (map fst (fst (store_results pd results)))
       \<and> set (map fst (fst (store_results pd results)))
           = set (map fst pd) \<union> {k. \<exists>r \<in> set results. dict_key (member_id r) = Inr k}
       \<and> (\<forall>k. results_for k results \<noteq> [] \<longrightarrow>
             map_of (fst (store_results pd results)) k =
               Some \<lparr>name = member_name (last (results_for k results)),
                     scores = stored_scores pd k @ map gross_score (results_for k results)\<rparr>)
       \<and> (\<forall>k. results_for k results = [] \<longrightarrow>
             map_of (fst (store_results pd results)) k = map_of pd k)"
    if hashable: "\<forall>r \<in> set results. \<not> is_list (member_id r) \<and> \<not> is_dict (member_id r)"
      and dist: "distinct (map fst pd)"
    using store_results_hashable [OF hashable, of pd] dist keys by simp
  have stops: "store_results pd (before @ bad # after)
           = (fst (store_results pd before), Some TypeError)"
    if "\<forall>r \<in> set before. \<not> is_list (member_id r) \<and> \<not> is_dict (member_id r)"
      and "is_list (member_id bad) \<or> is_dict (member_id bad)"
    using that by (rule store_results_unhashable)
  from store_results_None_iff [of pd results] merged stops show ?thesis by blast
qed

theorem store_results_records_witness:
  "store_results []
     [\<lparr>member_id = JStr ''m1'', member_name = JStr ''Ann'', gross_score = JInt 72\<rparr>,
      \<lparr>member_id = JStr ''m2'', member_name = JStr ''Bob'', gross_score = JInt 80\<rparr>,
      \<lparr>member_id = JStr ''m1'', member_name = JStr ''Anne'', gross_score = JInt 75\<rparr>]
     = ([(KStr ''m1'', \<lparr>name = JStr ''Anne'', scores = [JInt 72, JInt 75]\<rparr>),
         (KStr ''m2'', \<lparr>name = JStr ''Bob'', scores = [JInt 80]\<rparr>)], None)
   \<and> map_of (fst (store_results []
     [\<lparr>member_id = JStr ''m1'', member_name = JStr ''Ann'', gross_score = JInt 72\<rparr>,
      \<lparr>member_id = JStr ''m2'', member_name = JStr ''Bob'', gross_score = JInt 80\<rparr>,
      \<lparr>member_id = JStr ''m1'', member_name = JStr ''Anne'', gross_score = JInt 75\<rparr>])) (KStr ''m1'')
     = Some \<lparr>name = JStr ''Anne'', scores = [JInt 72, JInt 75]\<rparr>
   \<and> store_results []
     ([\<lparr>member_id = JStr ''m1'', member_name = JStr ''Ann'', gross_score = JInt 72\<rparr>]
      @ \<lparr>member_id = JDict [], member_name = JStr ''Zed'', gross_score = JInt 90\<rparr>
      # [\<lparr>member_id = JStr ''m2'', member_name = JStr ''Bob'', gross_score = JInt 80\<rparr>])
     = (fst (store_results []
          [\<lparr>member_id = JStr ''m1'', member_name = JStr ''Ann'', gross_score = JInt 72\<rparr>]),
        Some TypeError)"
proof -
  let ?rs = "[\<lparr>member_id = JStr ''m1'', member_name = JStr ''Ann'', gross_score = JInt 72\<rparr>,
      \<lparr>member_id = JStr ''m2'', member_name = JStr ''Bob'', gross_score = JInt 80\<rparr>,
      \<lparr>member_id = JStr ''m1'', member_name = JStr ''Anne'', gross_score = JInt 75\<rparr>]"
  let ?before = "[\<lparr>member_id = JStr ''m1'', member_name = JStr ''Ann'', gross_score = JInt 72\<rparr>]"
  let ?bad = "\<lparr>member_id = JDict [], member_name = JStr ''Zed'', gross_score = JInt 90\<rparr>"
  let ?after = "[\<lparr>member_id = JStr ''m2'', member_name = JStr ''Bob'', gross_score = JInt 80\<rparr>]"
  have h: "(\<forall>r \<in> set ?rs. \<not> is_list (member_id r) \<and> \<not> is_dict (member_id r))
      \<and> distinct (map fst ([] :: player_data))" by simp
  have run: "store_results [] ?rs
     = ([(KStr ''m1'', \<lparr>name = JStr ''Anne'', scores = [JInt 72, JInt 75]\<rparr>),
         (KStr ''m2'', \<lparr>name = JStr ''Bob'', scores = [JInt 80]\<rparr>)], None)"
    by (simp add: store_result_def dict_touch_def dict_modify_def default_record_def)
  have mine: "results_for (KStr ''m1'') ?rs
     = [\<lparr>member_id = JStr ''m1'', member_name = JStr ''Ann'', gross_score = JInt 72\<rparr>,
        \<lparr>member_id = JStr ''m1'', member_name = JStr ''Anne'', gross_score = JInt 75\<rparr>]"
    by (simp add: results_for_def)
  note at_rs = store_results_records [where pd = "[]" and results = ?rs
      and before = ?before and bad = ?bad and after = ?after]
  note merged = at_rs [THEN conjunct2, THEN conjunct1, THEN mp, OF h]
  note records = merged [THEN conjunct2, THEN conjunct2, THEN conjunct2, THEN conjunct1]
  from records have "results_for (KStr ''m1'') ?rs \<noteq> [] \<longrightarrow>
             map_of (fst (store_results [] ?rs)) (KStr ''m1'') =
               Some \<lparr>name = member_name (last (results_for (KStr ''m1'') ?rs)),
                     scores = stored_scores [] (KStr ''m1'')
                       @ map gross_score (results_for (KStr ''m1'') ?rs)\<rparr>"
    by (rule spec)
  then have look: "map_of (fst (store_results [] ?rs)) (KStr ''m1'')
     = Some \<lparr>name = JStr ''Anne'', scores = [JInt 72, JInt 75]\<rparr>"
    unfolding mine by (simp add: stored_scores_def)
  have b: "(\<forall>r \<in> set ?before. \<not> is_list (member_id r) \<and> \<not> is_dict (member_id r))
        \<and> (is_list (member_id ?bad) \<or> is_dict (member_id ?bad))" by simp
  from at_rs [THEN conjunct2, THEN conjunct2] b
  have stop: "store_results [] (?before @ ?bad # ?after)
     = (fst (store_results [] ?before), Some TypeError)"
    by (rule mp)
  from run look stop show ?thesis by (intro conjI)
qed

lemmas collector_defs =
  fetch_all_scores_def get_events_def fetch_def make_api_request_def process_event_def
  get_event_rounds_def process_round_def get_tournament_ids_def process_tournament_def
  get_tournament_results_def results_json_def result_json_def extract_player_results_def
  extract_player_def aggregate_results_def store_result_def dict_touch_def dict_modify_def
  default_record_def

lemma failing_round_run:
  "fetch_all_scores failing_round_api (JInt 2025) ()
     = Inr [(KStr ''m1'', \<lparr>name = JStr ''Ann'', scores = [JInt 72]\<rparr>),
            (KStr ''m2'', \<lparr>name = JStr ''Bob'', scores = [JInt 80]\<rparr>)]"
  by (simp add: collector_defs failing_round_api_def)

lemma rounds_loop_objects:
  "list_all is_dict rounds \<Longrightarrow> \<exists>st'. rounds_loop api ev rounds st = Inr st'"
proof (induction rounds arbitrary: st)
  case Nil
  show ?case by simp
next
  case (Cons round_data rounds)
  then obtain d where "round_data = JDict d"
    by (cases round_data) simp_all
  with Cons show ?case by simp
qed

lemma process_event_objects:
  assumes "py_get event ''id'' JNull = Inr event_id"
    and "get_event_rounds api event_id w = (Inr (JList rounds), w')"
    and "list_all is_dict rounds"
  shows "\<exists>st'. process_event api (pd, w) event = Inr st'"
proof -
  from assms(1) obtain d where d: "event = JDict d"
    by (cases event) simp_all
  from rounds_loop_objects [OF assms(3), of api event_id "(pd, w')"]
  obtain st' where "rounds_loop api event_id rounds (pd, w') = Inr st'" by blast
  with assms(1,2) d show ?thesis
    by (simp add: process_event_def)
qed

text \<open>
  The round item that is null: reading its id raises \<^verbatim>\<open>AttributeError\<close> outside the
  \<^verbatim>\<open>try\<close>, and the whole collection is lost, the round before it included.
\<close>

theorem failure_isolation_counterexample:
  "get_event_rounds null_round_api (JInt 1) ()
     = (Inr (JList [JDict [(''id'', JInt 11)], JNull]), ())
   \<and> rounds_loop null_round_api (JInt 1) [JDict [(''id'', JInt 11)], JNull] ([], ())
     = Inl AttributeError
   \<and> fetch_all_scores null_round_api (JInt 2025) () = Inl AttributeError"
  by (simp add: collector_defs null_round_api_def)

text \<open>
  C9 (amended). A failure of a tournament's results fetch or extraction leaves the map as
  it was and the loop goes on with the next tournament; a failure of a round's
  tournament-id fetch leaves the map as it was and the loop goes on with the next round;
  and when every round item is an object, no failure raised while a round is processed
  leaves the loop over the rounds, nor the processing of their event.
\<close>

theorem failure_isolation:
  "(fst (get_tournament_results api ev rid t w) = Inl err \<longrightarrow>
      process_tournament api ev rid (pd, w) t
        = (pd, snd (get_tournament_results api ev rid t w))
    \<and> foldl (process_tournament api ev rid) (pd, w) (t # ts)
        = foldl (process_tournament api ev rid)
            (pd, snd (get_tournament_results api ev rid t w)) ts)
   \<and> (fst (get_tournament_ids api ev rid w) = Inl err \<longrightarrow>
      process_round api ev (pd, w) rid = (pd, snd (get_tournament_ids api ev rid w))
    \<and> (py_get round_data ''id'' JNull = Inr rid \<longrightarrow>
         rounds_loop api ev (round_data # rest) (pd, w)
           = rounds_loop api ev rest (pd, snd (get_tournament_ids api ev rid w))))
   \<and> (list_all is_dict rounds \<longrightarrow> (\<exists>st'. rounds_loop api ev rounds st = Inr st'))
   \<and> (py_get event ''id'' JNull = Inr ev
        \<and> get_event_rounds api ev w = (Inr (JList rounds), w') \<and> list_all is_dict rounds \<longrightarrow>
        (\<exists>st'. process_event api (pd, w) event = Inr st'))"
proof -
  have t: "process_tournament api ev rid (pd, w) t
        = (pd, snd (get_tournament_results api ev rid t w))"
    if "fst (get_tournament_results api ev rid t w) = Inl err"
    using that by (cases "get_tournament_results api ev rid t w") (simp add: process_tournament_def)
  have r: "process_round api ev (pd, w) rid = (pd, snd (get_tournament_ids api ev rid w))"
    if "fst (get_tournament_ids api ev rid w) = Inl err"
    using that by (cases "get_tournament_ids api ev rid w") (simp add: process_round_def)
  from t r rounds_loop_objects [of rounds api ev st]
       process_event_objects [of event ev api w rounds w' pd]
  show ?thesis by simp
qed

theorem failure_isolation_witness:
  "process_tournament failing_round_api (JInt 1) (JInt 11) ([], ()) (JInt 101) = ([], ())
   \<and> foldl (process_tournament failing_round_api (JInt 1) (JInt 11)) ([], ()) [JInt 101, JInt 100]
     = foldl (process_tournament failing_round_api (JInt 1) (JInt 11)) ([], ()) [JInt 100]
   \<and> process_round failing_round_api (JInt 1) ([], ()) (JInt 10) = ([], ())
   \<and> rounds_loop failing_round_api (JInt 1) [JDict [(''id'', JInt 10)], JDict [(''id'', JInt 11)]] ([], ())
     = rounds_loop failing_round_api (JInt 1) [JDict [(''id'', JInt 11)]] ([], ())
   \<and> (\<exists>st'. rounds_loop failing_round_api (JInt 1)
                [JDict [(''id'', JInt 10)], JDict [(''id'', JInt 11)]] ([], ()) = Inr st')
   \<and> (\<exists>st'. process_event failing_round_api ([], ()) (JDict [(''id'', JInt 1)]) = Inr st')
   \<and> fetch_all_scores failing_round_api (JInt 2025) ()
     = Inr [(KStr ''m1'', \<lparr>name = JStr ''Ann'', scores = [JInt 72]\<rparr>),
            (KStr ''m2'', \<lparr>name = JStr ''Bob'', scores = [JInt 80]\<rparr>)]"
proof -
  have results_fail:
    "get_tournament_results failing_round_api (JInt 1) (JInt 11) (JInt 101) () = (Inl RequestException, ())"
    by (simp add: get_tournament_results_def fetch_def make_api_request_def failing_round_api_def)
  have ids_fail: "get_tournament_ids failing_round_api (JInt 1) (JInt 10) () = (Inl RequestException, ())"
    by (simp add: get_tournament_ids_def fetch_def make_api_request_def failing_round_api_def)
  have rid: "py_get (JDict [(''id'', JInt 10)]) ''id'' JNull = Inr (JInt 10)" by simp
  have eid: "py_get (JDict [(''id'', JInt 1)]) ''id'' JNull = Inr (JInt 1)" by simp
  have rounds: "get_event_rounds failing_round_api (JInt 1) ()
     = (Inr (JList [JDict [(''id'', JInt 10)], JDict [(''id'', JInt 11)]]), ())"
    by (simp add: get_event_rounds_def fetch_def make_api_request_def failing_round_api_def)
  have objects: "list_all is_dict [JDict [(''id'', JInt 10)], JDict [(''id'', JInt 11)]]" by simp
  from failure_isolation
         [where api = failing_round_api and ev = "JInt 1" and rid = "JInt 11" and t = "JInt 101"
            and w = "()" and err = RequestException and pd = "[]" and ts = "[JInt 100]"
            and rounds = "[JDict [(''id'', JInt 10)], JDict [(''id'', JInt 11)]]"
            and st = "([], ())" and event = "JDict [(''id'', JInt 1)]" and w' = "()"]
       results_fail eid rounds objects
  have tournament:
    "process_tournament failing_round_api (JInt 1) (JInt 11) ([], ()) (JInt 101) = ([], ())
     \<and> foldl (process_tournament failing_round_api (JInt 1) (JInt 11)) ([], ()) [JInt 101, JInt 100]
       = foldl (process_tournament failing_round_api (JInt 1) (JInt 11)) ([], ()) [JInt 100]
     \<and> (\<exists>st'. rounds_loop failing_round_api (JInt 1)
                [JDict [(''id'', JInt 10)], JDict [(''id'', JInt 11)]] ([], ()) = Inr st')
     \<and> (\<exists>st'. process_event failing_round_api ([], ()) (JDict [(''id'', JInt 1)]) = Inr st')"
    by simp
  from failure_isolation
         [where api = failing_round_api and ev = "JInt 1" and rid = "JInt 10" and w = "()"
            and err = RequestException and pd = "[]"
            and round_data = "JDict [(''id'', JInt 10)]" and rest = "[JDict [(''id'', JInt 11)]]"]
       ids_fail rid
  have round:
    "process_round failing_round_api (JInt 1) ([], ()) (JInt 10) = ([], ())
     \<and> rounds_loop failing_round_api (JInt 1) [JDict [(''id'', JInt 10)], JDict [(''id'', JInt 11)]] ([], ())
       = rounds_loop failing_round_api (JInt 1) [JDict [(''id'', JInt 11)]] ([], ())"
    by simp
  from tournament round failing_round_run show ?thesis by blast
qed

section \<open>Properties of the Leaderboard Calculator\<close>

lemma succeeds_iff: "succeeds item \<longleftrightarrow> (\<exists>e. make_entry (snd item) = Inr e)"
  by (simp add: succeeds_def split: sum.splits)

lemma sort_eq_Nil_iff: "sort_key f xs = [] \<longleftrightarrow> xs = []"
  using length_sort [of f xs] by (simp only: length_0_conv [symmetric])

lemma numbers_map: "numbers (map IntScore ints) = Inr ints"
  by (induction ints) simp_all

lemma numbers_Inr: "numbers ss = Inr ints \<Longrightarrow> ss = map IntScore ints"
proof (induction ss arbitrary: ints)
  case Nil
  then show ?case by simp
next
  case (Cons s ss)
  then show ?case
    by (cases s) (auto split: sum.splits)
qed

lemma numbers_Inl: "numbers ss = Inl err \<Longrightarrow> err = TypeError \<and> NonNumber \<in> set ss"
proof (induction ss)
  case Nil
  then show ?case by simp
next
  case (Cons s ss)
  then show ?case
    by (cases s) (auto split: sum.splits)
qed


lemma numbers_cases:
  "numbers ss = Inl TypeError \<and> NonNumber \<in> set ss
   \<or> (\<exists>ints. numbers ss = Inr ints \<and> ss = map IntScore ints \<and> NonNumber \<notin> set ss)"
proof (cases "numbers ss")
  case (Inl err)
  then show ?thesis using numbers_Inl [of ss err] by simp
next
  case (Inr ints)
  then have "ss = map IntScore ints" by (rule numbers_Inr)
  with Inr show ?thesis by auto
qed


lemma make_entry_ints:
  "make_entry \<lparr>name = n, scores = map IntScore ints\<rparr> =
     (if ints = [] then Inl ZeroDivisionError
      else if float_limit \<le> \<bar>mean_of_best ints\<bar> then Inl OverflowError
      else Inr \<lparr>entry_name = n, avg_best_5 = mean_of_best ints,
                num_rounds = length ints, best_5 = take 5 (sort ints)\<rparr>)"
  by (simp add: make_entry_def numbers_map py_truediv_def mean_of_best_def Let_def sort_eq_Nil_iff)

lemma make_entry_ints':
  "scores data = map IntScore ints \<Longrightarrow>
   make_entry data =
     (if ints = [] then Inl ZeroDivisionError
      else if float_limit \<le> \<bar>mean_of_best ints\<bar> then Inl OverflowError
      else Inr \<lparr>entry_name = name data, avg_best_5 = mean_of_best ints,
                num_rounds = length ints, best_5 = take 5 (sort ints)\<rparr>)"
  using make_entry_ints [of "name data" ints] by (cases data) simp


lemma make_entry_Inr:
  assumes "make_entry data = Inr e"
  shows "\<exists>ints. scores data = map IntScore ints \<and> ints \<noteq> []
           \<and> \<bar>mean_of_best ints\<bar> < float_limit
           \<and> e = \<lparr>entry_name = name data, avg_best_5 = mean_of_best ints,
                   num_rounds = length ints, best_5 = take 5 (sort ints)\<rparr>"
proof -
  from numbers_cases [of "scores data"] assms obtain ints where
    ints: "scores data = map IntScore ints"
    by (auto simp: make_entry_def)
  from assms make_entry_ints' [OF ints] show ?thesis
    using ints by (auto split: if_splits)
qed

lemma make_entry_num_rounds: "make_entry data = Inr e \<Longrightarrow> num_rounds e = length (scores data)"
  using make_entry_Inr [of data e] by auto

lemma leaderboard_loop_blocked:
  "blocked mr pd \<Longrightarrow> \<exists>err. leaderboard_loop pd mr acc = Inl err"
proof (induction pd arbitrary: acc)
  case Nil
  then show ?case by (simp add: blocked_def)
next
  case (Cons item pd)
  obtain k d where item: "item = (k, d)" by (cases item)
  show ?case
  proof (cases "int (length (scores d)) < mr")
    case True
    with Cons.prems item have "blocked mr pd"
      by (auto simp: blocked_def qualifies_def)
    with Cons.IH True item show ?thesis by simp
  next
    case False
    show ?thesis
    proof (cases "make_entry d")
      case (Inl err)
      with False item show ?thesis by simp
    next
      case (Inr e)
      with Cons.prems item have "blocked mr pd"
        by (auto simp: blocked_def succeeds_iff)
      with Cons.IH False item Inr show ?thesis by simp
    qed
  qed
qed

lemma leaderboard_loop_free:
  "\<not> blocked mr pd \<Longrightarrow>
   \<exists>lb. leaderboard_loop pd mr acc = Inr lb
     \<and> map Inr lb = map Inr acc @ map (make_entry \<circ> snd) (filter (qualifies mr) pd)"
proof (induction pd arbitrary: acc)
  case Nil
  then show ?case by simp
next
  case (Cons item pd)
  obtain k d where item: "item = (k, d)" by (cases item)
  from Cons.prems have rest: "\<not> blocked mr pd"
    by (auto simp: blocked_def)
  show ?case
  proof (cases "int (length (scores d)) < mr")
    case True
    with Cons.IH [OF rest] item show ?thesis by (simp add: qualifies_def)
  next
    case False
    with Cons.prems item obtain e where e: "make_entry d = Inr e"
      by (auto simp: blocked_def qualifies_def succeeds_iff)
    with Cons.IH [OF rest, of "acc @ [e]"] False item show ?thesis
      by (simp add: qualifies_def)
  qed
qed



lemma calculate_leaderboard_blocked:
  "blocked mr pd \<Longrightarrow> \<exists>err. calculate_leaderboard pd mr = Inl err"
  using leaderboard_loop_blocked [of mr pd "[]"] by (auto simp: calculate_leaderboard_def)

lemma calculate_leaderboard_free:
  assumes "\<not> blocked mr pd"
  shows "\<exists>lb. leaderboard_loop pd mr [] = Inr lb
           \<and> calculate_leaderboard pd mr = Inr (sort_key avg_best_5 lb)
           \<and> map Inr lb = map (make_entry \<circ> snd) (filter (qualifies mr) pd)"
  using leaderboard_loop_free [OF assms, of "[]"]
  by (auto simp: calculate_leaderboard_def)

lemma calculate_leaderboard_Inr_free: "calculate_leaderboard pd mr = Inr lb \<Longrightarrow> \<not> blocked mr pd"
  using calculate_leaderboard_blocked [of mr pd] by auto



lemma take_sort_smallest:
  fixes xs :: "int list"
  shows "sorted (take n (sort xs))
       \<and> mset xs = mset (take n (sort xs)) + mset (drop n (sort xs))
       \<and> (\<forall>x \<in> set (take n (sort xs)). \<forall>y \<in> set (drop n (sort xs)). x \<le> y)"
proof -
  have s: "sorted (take n (sort xs) @ drop n (sort xs))" by simp
  have "mset (take n (sort xs)) + mset (drop n (sort xs)) = mset (take n (sort xs) @ drop n (sort xs))"
    by (simp only: mset_append)
  also have "\<dots> = mset xs" by simp
  finally have m: "mset xs = mset (take n (sort xs)) + mset (drop n (sort xs))" by simp
  from s m show ?thesis
    unfolding sorted_append by blast
qed

lemma entry_in_leaderboard:
  assumes "calculate_leaderboard pd mr = Inr lb" "item \<in> set pd" "qualifies mr item"
  shows "\<exists>e \<in> set lb. make_entry (snd item) = Inr e"
proof -
  from assms(1) have nb: "\<not> blocked mr pd" by (rule calculate_leaderboard_Inr_free)
  from calculate_leaderboard_free [OF nb] assms(1) obtain ub where
    ub: "lb = sort_key avg_best_5 ub"
      "map Inr ub = map (make_entry \<circ> snd) (filter (qualifies mr) pd)" by auto
  from assms(2,3) have "make_entry (snd item) \<in> set (map (make_entry \<circ> snd) (filter (qualifies mr) pd))"
    by auto
  with ub(2) have "make_entry (snd item) \<in> Inr ` set ub" by (metis set_map)
  with ub(1) show ?thesis by auto
qed

subsection \<open>Best five and their mean\<close>

text \<open>
  With \<open>min_rounds = 3\<close> a record of three scores qualifies, and its entry holds three
  scores and their mean: there are no five smallest values.
\<close>

theorem best_5_smallest_counterexample:
  "calculate_leaderboard
     [(''m1'', \<lparr>name = ''Ann'', scores = [IntScore 90, IntScore 70, IntScore 80]\<rparr>)] 3
     = Inr [\<lparr>entry_name = ''Ann'', avg_best_5 = 80, num_rounds = 3, best_5 = [70, 80, 90]\<rparr>]
   \<and> length (best_5 \<lparr>entry_name = ''Ann'', avg_best_5 = 80, num_rounds = 3,
                        best_5 = [70, 80, 90]\<rparr>) \<noteq> 5"
  by (simp add: calculate_leaderboard_def make_entry_def py_truediv_def float_limit_def)

text \<open>
  C1 (amended). For every record with \<open>len(scores) \<ge> min_rounds\<close>, whenever the calculator
  returns, the record's entry lists in \<open>best_5\<close> its \<open>min(5, len(scores))\<close> smallest
  scores in ascending order (every score left out is at least as large as every score
  kept) and \<open>average_of_best_5\<close> is the arithmetic mean of the scores kept; for a record
  with at least five scores these are exactly five values and the mean is their sum
  divided by five.
\<close>

theorem best_5_smallest:
  assumes "calculate_leaderboard pd mr = Inr lb"
    and "(k, d) \<in> set pd"
    and "mr \<le> int (length (scores d))"
  shows "\<exists>e \<in> set lb.
           entry_name e = name d \<and> num_rounds e = length (scores d)
         \<and> length (best_5 e) = min 5 (length (scores d))
         \<and> sorted (best_5 e)
         \<and> (\<exists>rest. mset (scores d) = mset (map IntScore (best_5 e)) + mset (map IntScore rest)
                \<and> (\<forall>x \<in> set (best_5 e). \<forall>y \<in> set rest. x \<le> y))
         \<and> avg_best_5 e = of_int (sum_list (best_5 e)) / of_nat (length (best_5 e))
         \<and> (5 \<le> length (scores d) \<longrightarrow>
               length (best_5 e) = 5 \<and> avg_best_5 e = of_int (sum_list (best_5 e)) / 5)"
proof -
  from assms(3) have q: "qualifies mr (k, d)" by (simp add: qualifies_def)
  from entry_in_leaderboard [OF assms(1,2) q]
  obtain e where e: "e \<in> set lb" "make_entry d = Inr e" by auto
  from make_entry_Inr [OF e(2)] obtain ints where
    ints: "scores d = map IntScore ints"
    and fields: "entry_name e = name d" "num_rounds e = length ints"
      "best_5 e = take 5 (sort ints)" "avg_best_5 e = mean_of_best ints"
    by auto
  have rounds: "num_rounds e = length (scores d)"
    by (simp add: fields(2) ints)
  have len: "length (best_5 e) = min 5 (length (scores d))"
    by (simp add: fields(3) ints min.commute)
  from take_sort_smallest [of 5 ints] fields(3) have
    srt: "sorted (best_5 e)"
    and split: "mset ints = mset (best_5 e) + mset (drop 5 (sort ints))"
    and below: "\<forall>x \<in> set (best_5 e). \<forall>y \<in> set (drop 5 (sort ints)). x \<le> y"
    by auto
  from split have "mset (map IntScore ints)
      = mset (map IntScore (best_5 e)) + mset (map IntScore (drop 5 (sort ints)))"
    by (simp only: mset_map image_mset_union)
  with ints below have
    rest: "\<exists>rest. mset (scores d) = mset (map IntScore (best_5 e)) + mset (map IntScore rest)
                \<and> (\<forall>x \<in> set (best_5 e). \<forall>y \<in> set rest. x \<le> y)"
    by auto
  have avg: "avg_best_5 e = of_int (sum_list (best_5 e)) / of_nat (length (best_5 e))"
    by (simp add: fields(3,4) mean_of_best_def)
  have five: "5 \<le> length (scores d) \<longrightarrow>
               length (best_5 e) = 5 \<and> avg_best_5 e = of_int (sum_list (best_5 e)) / 5"
    using len avg by auto
  from e(1) fields(1) rounds len srt rest avg five show ?thesis by blast
qed

theorem best_5_smallest_witness:
  "calculate_leaderboard
     [(''m1'', \<lparr>name = ''Ann'', scores = map IntScore [80, 75, 90, 70, 85, 95]\<rparr>)] 5
     = Inr [\<lparr>entry_name = ''Ann'', avg_best_5 = 80, num_rounds = 6, best_5 = [70, 75, 80, 85, 90]\<rparr>]
   \<and> (\<exists>e \<in> set [\<lparr>entry_name = ''Ann'', avg_best_5 = 80, num_rounds = 6, best_5 = [70, 75, 80, 85, 90]\<rparr>].
      entry_name e = ''Ann'' \<and> num_rounds e = 6 \<and> length (best_5 e) = 5
    \<and> avg_best_5 e = of_int (sum_list (best_5 e)) / 5)"
proof -
  let ?d = "\<lparr>name = ''Ann'', scores = map IntScore [80, 75, 90, 70, 85, 95]\<rparr>"
  have run: "calculate_leaderboard [(''m1'', ?d)] 5
      = Inr [\<lparr>entry_name = ''Ann'', avg_best_5 = 80, num_rounds = 6, best_5 = [70, 75, 80, 85, 90]\<rparr>]"
    by (simp add: calculate_leaderboard_def make_entry_def py_truediv_def float_limit_def)
  have mem: "(''m1'', ?d) \<in> set [(''m1'', ?d)]" by simp
  have q: "5 \<le> int (length (scores ?d))" by simp
  from best_5_smallest [OF run mem q] run show ?thesis by simp
qed

subsection \<open>Qualification\<close>

text \<open>
  With \<open>min_rounds = 0\<close> a record without scores passes the test and the division raises:
  the call returns no leaderboard, so no record contributes an entry, not even one that
  has a score.
\<close>

theorem calculate_leaderboard_membership_counterexample:
  "qualifies 0 (''m1'', \<lparr>name = ''Ann'', scores = [] :: score list\<rparr>)
   \<and> qualifies 0 (''m2'', \<lparr>name = ''Bob'', scores = [IntScore 72]\<rparr>)
   \<and> calculate_leaderboard
         [(''m1'', \<lparr>name = ''Ann'', scores = []\<rparr>),
          (''m2'', \<lparr>name = ''Bob'', scores = [IntScore 72]\<rparr>)] 0
       = Inl ZeroDivisionError"
  by (simp add: qualifies_def calculate_leaderboard_def make_entry_def py_truediv_def)

text \<open>
  C2 (amended). The calculator returns a leaderboard whenever the entry of every record
  with \<open>len(scores) \<ge> min_rounds\<close> can be computed; and whenever it returns one, its
  entries are, with multiplicity, the entries of exactly the records with
  \<open>len(scores) \<ge> min_rounds\<close>: a record has an entry in the output if and only if it
  qualifies.
\<close>

theorem calculate_leaderboard_membership:
  "((\<forall>item \<in> set pd. qualifies mr item \<longrightarrow> (\<exists>e. make_entry (snd item) = Inr e))
      \<longrightarrow> (\<exists>lb. calculate_leaderboard pd mr = Inr lb))
   \<and> (calculate_leaderboard pd mr = Inr lb \<longrightarrow>
        image_mset Inr (mset lb) = image_mset (make_entry \<circ> snd) (mset (filter (qualifies mr) pd))
      \<and> length lb = length (filter (qualifies mr) pd)
      \<and> (\<forall>item \<in> set pd. qualifies mr item \<longleftrightarrow> (\<exists>e \<in> set lb. make_entry (snd item) = Inr e)))"
proof (cases "blocked mr pd")
  case True
  then obtain err where "calculate_leaderboard pd mr = Inl err"
    using calculate_leaderboard_blocked by blast
  moreover from True
  have "\<not> (\<forall>item \<in> set pd. qualifies mr item \<longrightarrow> (\<exists>e. make_entry (snd item) = Inr e))"
    by (auto simp: blocked_def succeeds_iff)
  ultimately show ?thesis by simp
next
  case False
  from calculate_leaderboard_free [OF False] obtain ub where
    run: "calculate_leaderboard pd mr = Inr (sort_key avg_best_5 ub)"
    and ub: "map Inr ub = map (make_entry \<circ> snd) (filter (qualifies mr) pd)" by auto
  have m: "image_mset Inr (mset (sort_key avg_best_5 ub))
             = image_mset (make_entry \<circ> snd) (mset (filter (qualifies mr) pd))"
    using arg_cong [OF ub, of mset] by simp
  have l: "length (sort_key avg_best_5 ub) = length (filter (qualifies mr) pd)"
    using arg_cong [OF ub, of length] by simp
  have s: "Inr ` set (sort_key avg_best_5 ub) = (make_entry \<circ> snd) ` set (filter (qualifies mr) pd)"
    using arg_cong [OF ub, of set] by simp
  have iff: "qualifies mr item \<longleftrightarrow> (\<exists>e \<in> set (sort_key avg_best_5 ub). make_entry (snd item) = Inr e)"
    if "item \<in> set pd" for item
  proof
    assume "qualifies mr item"
    with that have "make_entry (snd item) \<in> (make_entry \<circ> snd) ` set (filter (qualifies mr) pd)"
      by auto
    with s show "\<exists>e \<in> set (sort_key avg_best_5 ub). make_entry (snd item) = Inr e"
      by auto
  next
    assume "\<exists>e \<in> set (sort_key avg_best_5 ub). make_entry (snd item) = Inr e"
    then obtain e where e: "e \<in> set (sort_key avg_best_5 ub)" "make_entry (snd item) = Inr e"
      by auto
    from e(1) s obtain item' where item': "item' \<in> set pd" "qualifies mr item'"
      "make_entry (snd item') = Inr e" by force
    from e(2) item'(3) have "length (scores (snd item)) = length (scores (snd item'))"
      using make_entry_num_rounds by metis
    with item'(2) show "qualifies mr item" by (simp add: qualifies_def)
  qed
  from run m l iff show ?thesis by auto
qed

theorem calculate_leaderboard_membership_witness:
  "calculate_leaderboard
     [(''m1'', \<lparr>name = ''Ann'', scores = map IntScore [72, 75]\<rparr>),
      (''m2'', \<lparr>name = ''Bob'', scores = map IntScore [80, 75, 90, 70, 85, 95]\<rparr>)] 5
     = Inr [\<lparr>entry_name = ''Bob'', avg_best_5 = 80, num_rounds = 6, best_5 = [70, 75, 80, 85, 90]\<rparr>]
   \<and> \<not> qualifies 5 (''m1'', \<lparr>name = ''Ann'', scores = map IntScore [72, 75]\<rparr>)
   \<and> qualifies 5 (''m2'', \<lparr>name = ''Bob'', scores = map IntScore [80, 75, 90, 70, 85, 95]\<rparr>)
   \<and> length [\<lparr>entry_name = ''Bob'', avg_best_5 = 80, num_rounds = 6, best_5 = [70, 75, 80, 85, 90]\<rparr>]
       = length (filter (qualifies 5)
           [(''m1'', \<lparr>name = ''Ann'', scores = map IntScore [72, 75]\<rparr>),
            (''m2'', \<lparr>name = ''Bob'', scores = map IntScore [80, 75, 90, 70, 85, 95]\<rparr>)])"
proof -
  let ?pd = "[(''m1'', \<lparr>name = ''Ann'', scores = map IntScore [72, 75]\<rparr>),
              (''m2'', \<lparr>name = ''Bob'', scores = map IntScore [80, 75, 90, 70, 85, 95]\<rparr>)]"
  let ?lb = "[\<lparr>entry_name = ''Bob'', avg_best_5 = 80, num_rounds = 6, best_5 = [70, 75, 80, 85, 90]\<rparr>]"
  have run: "calculate_leaderboard ?pd 5 = Inr ?lb"
    by (simp add: calculate_leaderboard_def make_entry_def py_truediv_def float_limit_def)
  have q: "\<not> qualifies 5 (''m1'', \<lparr>name = ''Ann'', scores = map IntScore [72, 75]\<rparr>)"
    "qualifies 5 (''m2'', \<lparr>name = ''Bob'', scores = map IntScore [80, 75, 90, 70, 85, 95]\<rparr>)"
    by (simp_all add: qualifies_def)
  from calculate_leaderboard_membership [where pd = ?pd and mr = 5 and lb = ?lb, THEN conjunct2] run
  have "length ?lb = length (filter (qualifies 5) ?pd)" by (elim impE conjE)
  with run q show ?thesis by (intro conjI)
qed

subsection \<open>Order of the output\<close>



subsection \<open>Order independence\<close>



subsection \<open>Totality\<close>




end
